theory Spec2Isabelle
  imports Complex_Main "HOL-Library.Sublist" "HOL-Library.Char_ord" "HOL-Library.List_Lexorder"
begin

section \<open>The occupancy monitor (mqtt\_occupancy\_monitor.py)\<close>

subsection \<open>Configuration constants\<close>

definition MQTT_TOPIC :: string where
  "MQTT_TOPIC = ''zigbee2mqtt/SONOFF_SNZB-06P''"

definition MQTT_HEARTBEAT_TOPIC :: string where
  "MQTT_HEARTBEAT_TOPIC = ''occupancy_monitor/heartbeat''"

definition HEARTBEAT_INTERVAL :: int where
  "HEARTBEAT_INTERVAL = 15"

definition KEEPALIVE_INTERVAL :: int where
  "KEEPALIVE_INTERVAL = 30"

definition MAX_INACTIVE_TIME :: int where
  "MAX_INACTIVE_TIME = 60"

definition RECONNECT_DELAY_MIN :: int where
  "RECONNECT_DELAY_MIN = 1"

definition RECONNECT_DELAY_MAX :: int where
  "RECONNECT_DELAY_MAX = 60"

definition MAX_RECONNECT_ATTEMPTS :: int where
  "MAX_RECONNECT_ATTEMPTS = - 1"

subsection \<open>Values decoded from a payload\<close>

text \<open>
  The values that \<open>json.loads\<close> returns. A \<open>string\<close> is read as a Python string
  whose code points are all below 256, one \<open>char\<close> per code point. Integers are
  unbounded. A float is a finite real or one of the three special values that
  \<open>json.loads\<close> accepts (\<open>Infinity\<close>, \<open>-Infinity\<close>, \<open>NaN\<close>). An object is the list of
  its items, with distinct keys, as a Python dict holds them. \<open>JNull\<close> is Python's
  \<open>None\<close>.
\<close>

datatype pyfloat = Finite real | PosInf | NegInf | NaN

datatype json =
    JNull
  | JBool bool
  | JInt int
  | JFloat pyfloat
  | JStr string
  | JArr "json list"
  | JObj "(string \<times> json) list"

text \<open>
  The numeric value of \<open>bool\<close>, \<open>int\<close> and \<open>float\<close> objects, which Python compares
  with each other by value (\<open>True == 1 == 1.0\<close>).
\<close>

fun num_val :: "json \<Rightarrow> pyfloat option" where
  "num_val (JBool b) = Some (Finite (if b then 1 else 0))"
| "num_val (JInt i) = Some (Finite (of_int i))"
| "num_val (JFloat f) = Some f"
| "num_val _ = None"

text \<open>
  Python's \<open>==\<close> as containers apply it to their elements: identity first, then
  equality. The only value that is not equal to itself is NaN, and \<open>json.loads\<close>
  returns one and the same NaN object for every \<open>NaN\<close> it reads, so inside lists and
  dicts two NaNs count as equal.
\<close>

fun py_eq_in :: "json \<Rightarrow> json \<Rightarrow> bool"
  and py_eq_list :: "json list \<Rightarrow> json list \<Rightarrow> bool"
  and py_eq_items :: "(string \<times> json) list \<Rightarrow> (string \<times> json) list \<Rightarrow> bool" where
  "py_eq_in JNull w = (w = JNull)"
| "py_eq_in (JBool b) w = (num_val w = Some (Finite (if b then 1 else 0)))"
| "py_eq_in (JInt i) w = (num_val w = Some (Finite (of_int i)))"
| "py_eq_in (JFloat f) w = (num_val w = Some f)"
| "py_eq_in (JStr s) w = (w = JStr s)"
| "py_eq_in (JArr xs) w = (case w of JArr ys \<Rightarrow> py_eq_list xs ys | _ \<Rightarrow> False)"
| "py_eq_in (JObj kvs) w =
     (case w of JObj kws \<Rightarrow> length kvs = length kws \<and> py_eq_items kvs kws | _ \<Rightarrow> False)"
| "py_eq_list [] ys = (ys = [])"
| "py_eq_list (x # xs) ys = (case ys of [] \<Rightarrow> False | y # ys' \<Rightarrow> py_eq_in x y \<and> py_eq_list xs ys')"
| "py_eq_items [] kws = True"
| "py_eq_items ((k, v) # kvs) kws =
     ((case map_of kws k of None \<Rightarrow> False | Some w \<Rightarrow> py_eq_in v w) \<and> py_eq_items kvs kws)"

text \<open>
  The comparison \<open>a != b\<close> of two values themselves: float comparison is by value, so a
  NaN differs from everything, itself included.
\<close>

definition py_ne :: "json \<Rightarrow> json \<Rightarrow> bool" where
  "py_ne a b = (a = JFloat NaN \<or> b = JFloat NaN \<or> \<not> py_eq_in a b)"

text \<open>Truthiness, as \<open>if current_state\<close> tests it.\<close>

fun truthy :: "json \<Rightarrow> bool" where
  "truthy JNull = False"
| "truthy (JBool b) = b"
| "truthy (JInt i) = (i \<noteq> 0)"
| "truthy (JFloat f) = (f \<noteq> Finite 0)"
| "truthy (JStr s) = (s \<noteq> [])"
| "truthy (JArr xs) = (xs \<noteq> [])"
| "truthy (JObj kvs) = (kvs \<noteq> [])"

subsection \<open>Module state and observable actions\<close>

text \<open>
  The module-level variables that the callbacks and the main loop read and write.
  \<open>last_occupancy_state\<close> and \<open>last_activity_time\<close> start as \<open>None\<close>.
\<close>

record state =
  RECONNECT_ATTEMPTS :: int
  last_occupancy_state :: json
  reconnecting :: bool
  last_activity_time :: "real option"

definition initial_state :: state where
  "initial_state =
     \<lparr>RECONNECT_ATTEMPTS = 0, last_occupancy_state = JNull, reconnecting = False,
      last_activity_time = None\<rparr>"

text \<open>
  What the program prints (without the leading timestamp) and what it asks of the MQTT
  client and the clock. \<open>StateText b\<close> is the line \<open>PRESENCE DETECTED\<close> for \<open>b = True\<close>
  and \<open>NO PRESENCE\<close> for \<open>b = False\<close>: the occupancy event.
\<close>

datatype line =
    ConnectedTo
  | SubscribedTo
  | Monitoring
  | ReconnectionSuccessful int
  | FailedToConnect int
  | UnexpectedDisconnection int
  | DisconnectedFrom
  | StateText bool
  | ErrorNonJson
  | ErrorProcessing
  | MaximumReached
  | AttemptingReconnect real int
  | ReconnectionFailed
  | TerminatedByUser

datatype action =
    Print line
  | Subscribe string
  | Publish string
  | Reconnect
  | Sleep real

subsection \<open>The callbacks\<close>

definition on_connect :: "state \<Rightarrow> int \<Rightarrow> state \<times> action list" where
  "on_connect st rc =
     (if rc = 0 then
        if reconnecting st then
          (st\<lparr>reconnecting := False, RECONNECT_ATTEMPTS := 0\<rparr>,
           [Print ConnectedTo, Subscribe MQTT_TOPIC, Print SubscribedTo, Print Monitoring,
            Print (ReconnectionSuccessful (RECONNECT_ATTEMPTS st))])
        else
          (st, [Print ConnectedTo, Subscribe MQTT_TOPIC, Print SubscribedTo, Print Monitoring])
      else (st, [Print (FailedToConnect rc)]))"

definition on_disconnect :: "state \<Rightarrow> int \<Rightarrow> state \<times> action list" where
  "on_disconnect st rc =
     (if rc \<noteq> 0 then (st\<lparr>reconnecting := True\<rparr>, [Print (UnexpectedDisconnection rc)])
      else (st, [Print DisconnectedFrom]))"

text \<open>
  \<open>get_reconnect_delay\<close>: the counter is incremented first, the exponent is the
  incremented counter minus one. \<open>jitter\<close> is the value that \<open>random.uniform(0, 1)\<close>
  returns. Python's \<open>2 ** k\<close> is an integer for \<open>k \<ge> 0\<close> and the float \<open>2\<^sup>k\<close> for
  \<open>k < 0\<close>; \<open>powi\<close> covers both. The sum is taken in the reals.
\<close>

definition get_reconnect_delay :: "state \<Rightarrow> real \<Rightarrow> state \<times> real" where
  "get_reconnect_delay st jitter =
     (let st' = st\<lparr>RECONNECT_ATTEMPTS := RECONNECT_ATTEMPTS st + 1\<rparr>;
          delay = min (of_int RECONNECT_DELAY_MAX)
                      (of_int RECONNECT_DELAY_MIN * 2 powi (RECONNECT_ATTEMPTS st' - 1))
      in (st', delay + jitter))"

text \<open>
  A message as \<open>on_message\<close> meets it: \<open>msg.payload.decode()\<close> raises
  (\<open>UnicodeDecodeError\<close>), or \<open>json.loads\<close> raises \<open>JSONDecodeError\<close>, or it returns a
  value.
\<close>

datatype payload = NotDecodable | NotJson | Loaded json

text \<open>
  \<open>'occupancy' in payload\<close> followed by \<open>payload['occupancy']\<close>. On a dict this is a key
  test and a lookup. On a list the test is element membership and on a string it is a
  substring test; where it succeeds the subscript raises \<open>TypeError\<close>. On \<open>None\<close>, a
  bool or a number the test itself raises \<open>TypeError\<close>.
\<close>

datatype lookup = Absent | Found json | Raises

fun occupancy_of :: "json \<Rightarrow> lookup" where
  "occupancy_of (JObj kvs) =
     (case map_of kvs ''occupancy'' of None \<Rightarrow> Absent | Some v \<Rightarrow> Found v)"
| "occupancy_of (JArr xs) = (if JStr ''occupancy'' \<in> set xs then Raises else Absent)"
| "occupancy_of (JStr s) = (if sublist ''occupancy'' s then Raises else Absent)"
| "occupancy_of _ = Raises"

definition on_message :: "state \<Rightarrow> payload \<Rightarrow> state \<times> action list" where
  "on_message st msg =
     (case msg of
        NotDecodable \<Rightarrow> (st, [Print ErrorProcessing])
      | NotJson \<Rightarrow> (st, [Print ErrorNonJson])
      | Loaded payload \<Rightarrow>
          (case occupancy_of payload of
             Absent \<Rightarrow> (st, [])
           | Raises \<Rightarrow> (st, [Print ErrorProcessing])
           | Found current_state \<Rightarrow>
               if py_ne current_state (last_occupancy_state st) then
                 (st\<lparr>last_occupancy_state := current_state\<rparr>,
                  [Print (StateText (truthy current_state))])
               else (st, [])))"

subsection \<open>The main loop\<close>

text \<open>
  What one pass through the body of \<open>while True\<close> in \<open>main\<close> meets from outside: the
  answer of \<open>client.is_connected()\<close>, the value drawn by \<open>random.uniform(0, 1)\<close>,
  whether \<open>client.reconnect()\<close> raises, and whether a \<open>KeyboardInterrupt\<close> arrives
  while the pass sleeps (in the backoff sleep or in the one-second sleep that ends the
  pass). \<open>client.reconnect()\<close> is the only call of the body that raises anything
  else, and the handler around it catches that, so the handler \<open>except Exception\<close> of
  the loop has no case here.
\<close>

datatype interrupt_point = NoInterrupt | InBackoffSleep | InIdleSleep

record loop_input =
  is_connected :: bool
  jitter :: real
  reconnect_raises :: bool
  interrupt :: interrupt_point

datatype control = Continue | Break

definition idle_sleep :: "loop_input \<Rightarrow> action list \<times> control" where
  "idle_sleep inp =
     (if interrupt inp = InIdleSleep then ([Print TerminatedByUser], Break)
      else ([Sleep 1], Continue))"

definition main_loop_body :: "state \<Rightarrow> loop_input \<Rightarrow> state \<times> action list \<times> control" where
  "main_loop_body st inp =
     (if reconnecting st \<and> \<not> is_connected inp then
        if MAX_RECONNECT_ATTEMPTS > 0 \<and> RECONNECT_ATTEMPTS st \<ge> MAX_RECONNECT_ATTEMPTS then
          (st, [Print MaximumReached], Break)
        else
          let (st', delay) = get_reconnect_delay st (jitter inp);
              announce = Print (AttemptingReconnect delay (RECONNECT_ATTEMPTS st'))
          in if interrupt inp = InBackoffSleep then
               (st', [announce, Print TerminatedByUser], Break)
             else
               let attempt = Reconnect #
                     (if reconnect_raises inp then [Print ReconnectionFailed] else []);
                   (rest, ctl) = idle_sleep inp
               in (st', [announce, Sleep delay] @ attempt @ rest, ctl)
      else
        let (rest, ctl) = idle_sleep inp in (st, rest, ctl))"

subsection \<open>Runs of the program\<close>

text \<open>
  The network thread calls the three callbacks, the main thread runs the loop body. A
  run is a sequence of these steps in any order; each callback and each pass through the
  loop body is taken as one step. The only statements of the loop body that touch the
  module state are the test of \<open>reconnecting\<close> and the call of
  \<open>get_reconnect_delay\<close> right after it; the sleeps and \<open>client.reconnect()\<close>, during
  which callbacks arrive, come after them, so a callback between two steps stands for a
  callback during them. What the steps leave out is a callback that runs between that
  test and that call. A run ends when the loop body breaks out of the loop; the set-up
  of the client before the loop and the \<open>finally\<close> block after it are not part of it.
\<close>

datatype event =
    Connect int
  | Disconnect int
  | Message payload
  | LoopPass loop_input

fun step :: "state \<Rightarrow> event \<Rightarrow> state \<times> action list \<times> control" where
  "step st (Connect rc) = (let (st', out) = on_connect st rc in (st', out, Continue))"
| "step st (Disconnect rc) = (let (st', out) = on_disconnect st rc in (st', out, Continue))"
| "step st (Message msg) = (let (st', out) = on_message st msg in (st', out, Continue))"
| "step st (LoopPass inp) = main_loop_body st inp"

fun run :: "state \<Rightarrow> event list \<Rightarrow> state \<times> action list" where
  "run st [] = (st, [])"
| "run st (e # es) =
     (case step st e of
        (st', out, Break) \<Rightarrow> (st', out)
      | (st', out, Continue) \<Rightarrow> (let (st'', outs) = run st' es in (st'', out @ outs)))"

text \<open>The occupancy events among the actions of a run, in order.\<close>

fun occupancy_events :: "action list \<Rightarrow> bool list" where
  "occupancy_events [] = []"
| "occupancy_events (Print (StateText b) # as) = b # occupancy_events as"
| "occupancy_events (_ # as) = occupancy_events as"

text \<open>
  A sensor reading is a payload that decodes to an object whose \<open>occupancy\<close> field is a
  boolean; \<open>reading_of\<close> gives that boolean.
\<close>

fun reading_of :: "payload \<Rightarrow> bool option" where
  "reading_of (Loaded v) = (case occupancy_of v of Found (JBool b) \<Rightarrow> Some b | _ \<Rightarrow> None)"
| "reading_of _ = None"

text \<open>
  A malformed payload in the words of the interface description: it does not parse, or
  its occupancy field is absent or not a boolean.
\<close>

definition malformed :: "payload \<Rightarrow> bool" where
  "malformed msg = (reading_of msg = None)"

text \<open>
  The payloads that \<open>on_message\<close> drops: decoding or parsing raises, or the decoded value
  yields no occupancy field.
\<close>

fun dropped :: "payload \<Rightarrow> bool" where
  "dropped (Loaded v) = (case occupancy_of v of Found _ \<Rightarrow> False | _ \<Rightarrow> True)"
| "dropped _ = True"

text \<open>
  Modelled from the spec: the staleness check of the liveness tracker. The source
  declares \<open>last_activity_time\<close> and \<open>MAX_INACTIVE_TIME\<close> and holds no code that reads
  either; the check is written from the spec's sentence "true when
  \<open>now - lastActivityAt > maxInactive\<close>".
\<close>

definition isStale :: "real \<Rightarrow> real \<Rightarrow> real \<Rightarrow> bool" where
  "isStale lastActivityAt now maxInactive = (now - lastActivityAt > maxInactive)"

section \<open>The reporting queries (occupancy\_db\_query.py)\<close>

subsection \<open>Dates\<close>

text \<open>
  A date is year, month and day. \<open>datetime\<close> holds the years 1 to 9999.
\<close>

type_synonym date = "nat \<times> nat \<times> nat"

definition is_leap :: "nat \<Rightarrow> bool" where
  "is_leap y = (y mod 4 = 0 \<and> (y mod 100 \<noteq> 0 \<or> y mod 400 = 0))"

definition days_in_month :: "nat \<Rightarrow> nat \<Rightarrow> nat" where
  "days_in_month y m =
     (if m = 2 then (if is_leap y then 29 else 28)
      else if m = 4 \<or> m = 6 \<or> m = 9 \<or> m = 11 then 30 else 31)"

fun valid_date :: "date \<Rightarrow> bool" where
  "valid_date (y, m, d) =
     (1 \<le> y \<and> y \<le> 9999 \<and> 1 \<le> m \<and> m \<le> 12 \<and> 1 \<le> d \<and> d \<le> days_in_month y m)"

definition is_digit :: "char \<Rightarrow> bool" where
  "is_digit c = (c \<in> set ''0123456789'')"

definition digit_val :: "char \<Rightarrow> nat" where
  "digit_val c = of_char c - 48"

definition digit_char :: "nat \<Rightarrow> char" where
  "digit_char n = char_of (48 + n)"

text \<open>
  \<open>datetime.strptime(date_str, "%Y-%m-%d")\<close>; \<open>None\<close> stands for \<open>ValueError\<close>. The
  library matches the start of the string against
  \<open>(\d\d\d\d)-(1[0-2]|0[1-9]|[1-9])-(3[0-1]|[1-2]\d|0[1-9]|[1-9]| [1-9])\<close>, rejects a
  string of which a part is left over, and then builds the date, which fails for the
  year 0 and for a day that the month does not have. The month alternatives exclude
  each other once the hyphen after them is taken into account. The day is the last
  group, so the first alternative that matches a prefix is taken, and the string is
  accepted when that alternative is all that is left.
\<close>

fun strptime_month :: "string \<Rightarrow> (nat \<times> string) option" where
  "strptime_month (a # b # c # rest) =
     (if a = CHR ''1'' \<and> b \<in> set ''012'' \<and> c = CHR ''-'' then Some (10 + digit_val b, rest)
      else if a = CHR ''0'' \<and> b \<in> set ''123456789'' \<and> c = CHR ''-'' then Some (digit_val b, rest)
      else if a \<in> set ''123456789'' \<and> b = CHR ''-'' then Some (digit_val a, c # rest)
      else None)"
| "strptime_month _ = None"

fun strptime_day :: "string \<Rightarrow> nat option" where
  "strptime_day [a, b] =
     (if a = CHR ''3'' \<and> b \<in> set ''01'' then Some (30 + digit_val b)
      else if a \<in> set ''12'' \<and> is_digit b then Some (10 * digit_val a + digit_val b)
      else if a = CHR ''0'' \<and> b \<in> set ''123456789'' then Some (digit_val b)
      else if a = CHR '' '' \<and> b \<in> set ''123456789'' then Some (digit_val b)
      else None)"
| "strptime_day [a] = (if a \<in> set ''123456789'' then Some (digit_val a) else None)"
| "strptime_day _ = None"

fun strptime :: "string \<Rightarrow> date option" where
  "strptime (y1 # y2 # y3 # y4 # h # rest) =
     (if is_digit y1 \<and> is_digit y2 \<and> is_digit y3 \<and> is_digit y4 \<and> h = CHR ''-'' then
        case strptime_month rest of
          None \<Rightarrow> None
        | Some (m, rest') \<Rightarrow>
            (case strptime_day rest' of
               None \<Rightarrow> None
             | Some d \<Rightarrow>
                 let y = 1000 * digit_val y1 + 100 * digit_val y2 + 10 * digit_val y3
                         + digit_val y4
                 in if valid_date (y, m, d) then Some (y, m, d) else None)
      else None)"
| "strptime _ = None"

text \<open>
  \<open>date_obj + datetime.timedelta(days=1)\<close>; \<open>None\<close> stands for the \<open>OverflowError\<close>
  that the addition raises on the last day of the year 9999.
\<close>

fun next_day :: "date \<Rightarrow> date option" where
  "next_day (y, m, d) =
     (if d < days_in_month y m then Some (y, m, d + 1)
      else if m < 12 then Some (y, m + 1, 1)
      else if y < 9999 then Some (y + 1, 1, 1)
      else None)"

text \<open>
  \<open>strftime("%Y-%m-%d")\<close>: four digits, two digits, two digits, zero-padded, as the
  library documents \<open>%Y\<close>, \<open>%m\<close> and \<open>%d\<close>.
\<close>

definition pad2 :: "nat \<Rightarrow> string" where
  "pad2 n = [digit_char (n div 10 mod 10), digit_char (n mod 10)]"

definition pad4 :: "nat \<Rightarrow> string" where
  "pad4 n = [digit_char (n div 1000 mod 10), digit_char (n div 100 mod 10),
             digit_char (n div 10 mod 10), digit_char (n mod 10)]"

fun strftime :: "date \<Rightarrow> string" where
  "strftime (y, m, d) = pad4 y @ ''-'' @ pad2 m @ ''-'' @ pad2 d"

subsection \<open>The event table and the query\<close>

text \<open>
  A row of the table \<open>occupancy_events\<close> (\<open>event_id\<close> is the column \<open>id\<close>), and the
  dict that the query functions build from a row by adding \<open>status\<close> and
  \<open>formatted_time\<close>. Timestamps are stored as text.
\<close>

record event_row =
  event_id :: int
  timestamp :: string
  occupancy :: int

record event_dict = event_row +
  status :: string
  formatted_time :: string

text \<open>
  What the function meets from outside: whether the database file exists, whether
  \<open>sqlite3.connect\<close> or the \<open>PRAGMA\<close> raises \<open>sqlite3.Error\<close>, whether the \<open>SELECT\<close>
  raises \<open>sqlite3.Error\<close>, and the rows of the table.
\<close>

record database =
  db_exists :: bool
  connect_raises :: bool
  query_raises :: bool
  table_rows :: "event_row list"

datatype db_message = DatabaseMissing | InvalidDateFormat | ConnectionError | QueryError

datatype db_action = DbPrint db_message | DbConnect | DbSelect string string | DbClose

datatype exn = OverflowError | SystemExit int

definition check_database_exists :: "database \<Rightarrow> db_action list \<times> bool" where
  "check_database_exists db =
     (if \<not> db_exists db then ([DbPrint DatabaseMissing], False) else ([], True))"

definition get_connection :: "database \<Rightarrow> db_action list \<times> (exn + unit)" where
  "get_connection db =
     (if connect_raises db then ([DbPrint ConnectionError], Inl (SystemExit 1))
      else ([DbConnect], Inr ()))"

text \<open>
  The \<open>SELECT\<close> of \<open>get_events_by_date\<close>: SQLite compares text byte by byte, which on
  UTF-8 is the order of the code points, and a string is greater than each of its proper
  prefixes. Rows with equal timestamps are kept in table order.
\<close>

definition select_between :: "event_row list \<Rightarrow> string \<Rightarrow> string \<Rightarrow> event_row list" where
  "select_between rows date_start date_end =
     sort_key timestamp (filter (\<lambda>r. timestamp r \<ge> date_start \<and> timestamp r < date_end) rows)"

text \<open>
  \<open>fromisoformat\<close> stands for \<open>datetime.datetime.fromisoformat(ts).strftime("%H:%M:%S")\<close>,
  \<open>None\<close> where \<open>fromisoformat\<close> raises \<open>ValueError\<close>.
\<close>

definition make_event :: "(string \<Rightarrow> string option) \<Rightarrow> event_row \<Rightarrow> event_dict" where
  "make_event fromisoformat r =
     \<lparr>event_id = event_id r, timestamp = timestamp r, occupancy = occupancy r,
      status = (if occupancy r \<noteq> 0 then ''Anwesend'' else ''Abwesend''),
      formatted_time = (case fromisoformat (timestamp r) of
                          Some t \<Rightarrow> t | None \<Rightarrow> timestamp r)\<rparr>"

definition get_events_by_date ::
  "(string \<Rightarrow> string option) \<Rightarrow> database \<Rightarrow> string \<Rightarrow> db_action list \<times> (exn + event_dict list)" where
  "get_events_by_date fromisoformat db date_str =
     (case check_database_exists db of
        (out, False) \<Rightarrow> (out, Inr [])
      | (out, True) \<Rightarrow>
          (case strptime date_str of
             None \<Rightarrow> (out @ [DbPrint InvalidDateFormat], Inr [])
           | Some date_obj \<Rightarrow>
               (case next_day date_obj of
                  None \<Rightarrow> (out, Inl OverflowError)
                | Some next_day' \<Rightarrow>
                    let date_start = strftime date_obj; date_end = strftime next_day' in
                    (case get_connection db of
                       (out', Inl e) \<Rightarrow> (out @ out', Inl e)
                     | (out', Inr _) \<Rightarrow>
                         if query_raises db then
                           (out @ out' @ [DbSelect date_start date_end, DbPrint QueryError,
                                          DbClose], Inr [])
                         else
                           (out @ out' @ [DbSelect date_start date_end, DbClose],
                            Inr (map (make_event fromisoformat)
                                   (select_between (table_rows db) date_start date_end)))))))"

subsection \<open>An invariant of the retry counter\<close>

text \<open>
  The counter is never negative, and it is zero whenever the \<open>reconnecting\<close> flag is
  down: the loop body increments it only while the flag is up, and \<open>on_connect\<close> lowers
  the flag and clears the counter together.
\<close>

definition counter_inv :: "state \<Rightarrow> bool" where
  "counter_inv st \<longleftrightarrow> 0 \<le> RECONNECT_ATTEMPTS st \<and> (reconnecting st \<or> RECONNECT_ATTEMPTS st = 0)"

subsection \<open>Order of dates\<close>

text \<open>Earlier and later dates: the order of the triples year, month, day.\<close>

fun date_less :: "date \<Rightarrow> date \<Rightarrow> bool" where
  "date_less (y1, m1, d1) (y2, m2, d2) =
     (y1 < y2 \<or> (y1 = y2 \<and> (m1 < m2 \<or> (m1 = m2 \<and> d1 < d2))))"


section \<open>Properties of the monitor\<close>

subsection \<open>Comparison of readings\<close>

lemma py_ne_bool_null [simp]: "py_ne (JBool b) JNull"
  by (simp add: py_ne_def)

lemma py_ne_bool_bool [simp]: "py_ne (JBool b) (JBool c) = (b \<noteq> c)"
  by (auto simp add: py_ne_def)

lemma on_message_reading:
  "reading_of msg = Some b \<Longrightarrow>
   on_message st msg =
     (if py_ne (JBool b) (last_occupancy_state st)
      then (st\<lparr>last_occupancy_state := JBool b\<rparr>, [Print (StateText b)]) else (st, []))"
  by (cases msg) (auto simp: on_message_def split: lookup.splits json.splits)

lemma run_Message:
  "run st (Message msg # es) =
     (fst (run (fst (on_message st msg)) es),
      snd (on_message st msg) @ snd (run (fst (on_message st msg)) es))"
  by (simp add: split_beta)

lemma occupancy_events_append [simp]:
  "occupancy_events (xs @ ys) = occupancy_events xs @ occupancy_events ys"
  by (induction xs rule: occupancy_events.induct) auto

subsection \<open>Deduplication\<close>

text \<open>
  Once a boolean \<open>c\<close> is the last known state, the events that a sequence of readings
  produces are the readings with adjacent repetitions removed, less a leading \<open>c\<close>.
\<close>

lemma readings_from_known:
  "map reading_of msgs = map Some bs \<Longrightarrow> last_occupancy_state st = JBool c \<Longrightarrow>
   c # occupancy_events (snd (run st (map Message msgs))) = remdups_adj (c # bs)"
proof (induction msgs arbitrary: bs st c)
  case Nil
  then show ?case by simp
next
  case (Cons m msgs)
  then obtain b bs' where bs: "bs = b # bs'" and m: "reading_of m = Some b"
    and rest: "map reading_of msgs = map Some bs'" by (cases bs) auto
  show ?case
  proof (cases "b = c")
    case True
    with Cons.IH[OF rest Cons.prems(2)] m Cons.prems(2) bs show ?thesis
      by (simp add: on_message_reading run_Message del: run.simps)
  next
    case False
    let ?st = "st\<lparr>last_occupancy_state := JBool b\<rparr>"
    have "b # occupancy_events (snd (run ?st (map Message msgs))) = remdups_adj (b # bs')"
      by (rule Cons.IH[OF rest]) simp
    with False m Cons.prems(2) bs show ?thesis
      by (simp add: on_message_reading run_Message del: run.simps)
  qed
qed

lemma readings_from_unknown:
  "map reading_of msgs = map Some bs \<Longrightarrow> last_occupancy_state st = JNull \<Longrightarrow>
   occupancy_events (snd (run st (map Message msgs))) = remdups_adj bs"
proof (cases msgs)
  case Nil
  assume "map reading_of msgs = map Some bs"
  with Nil show ?thesis by simp
next
  case (Cons m msgs')
  assume a: "map reading_of msgs = map Some bs" and n: "last_occupancy_state st = JNull"
  from a Cons obtain b bs' where bs: "bs = b # bs'" and m: "reading_of m = Some b"
    and rest: "map reading_of msgs' = map Some bs'" by (cases bs) auto
  let ?st = "st\<lparr>last_occupancy_state := JBool b\<rparr>"
  have "b # occupancy_events (snd (run ?st (map Message msgs'))) = remdups_adj (b # bs')"
    by (rule readings_from_known[OF rest]) simp
  with m n bs Cons show ?thesis
    by (simp add: on_message_reading run_Message del: run.simps)
qed

text \<open>
  C1. For every sequence of sensor readings delivered to \<open>on_message\<close> from the initial
  state, no two consecutive occupancy events carry the same value: the events are the
  readings with adjacent repetitions removed. The first reading produces an event with
  its own value, whatever that value is, because the last known state starts as \<open>None\<close>.
\<close>

theorem events_alternate:
  assumes "map reading_of msgs = map Some bs"
  shows "distinct_adj (occupancy_events (snd (run initial_state (map Message msgs))))
       \<and> occupancy_events (snd (run initial_state (map Message msgs))) = remdups_adj bs
       \<and> (\<forall>b bs'. bs = b # bs' \<longrightarrow>
            occupancy_events (snd (run initial_state (map Message (take 1 msgs)))) = [b])"
proof -
  have n: "last_occupancy_state initial_state = JNull" by (simp add: initial_state_def)
  have e: "occupancy_events (snd (run initial_state (map Message msgs))) = remdups_adj bs"
    by (rule readings_from_unknown[OF assms n])
  have f: "occupancy_events (snd (run initial_state (map Message (take 1 msgs)))) = [b]"
    if "bs = b # bs'" for b bs'
  proof -
    from assms that have "map reading_of (take 1 msgs) = map Some [b]"
      by (cases msgs) auto
    from readings_from_unknown[OF this n] show ?thesis by simp
  qed
  from e f show ?thesis by simp
qed

text \<open>
  The readings \<open>true, true, false, false, true\<close> produce the events
  \<open>true, false, true\<close>.
\<close>

theorem events_alternate_witness:
  "occupancy_events (snd (run initial_state (map Message
      [Loaded (JObj [(''occupancy'', JBool True)]),
       Loaded (JObj [(''occupancy'', JBool True), (''battery'', JInt 100)]),
       Loaded (JObj [(''occupancy'', JBool False)]),
       Loaded (JObj [(''occupancy'', JBool False)]),
       Loaded (JObj [(''occupancy'', JBool True)])]))) = [True, False, True]
   \<and> occupancy_events (snd (run initial_state (map Message
      [Loaded (JObj [(''occupancy'', JBool True)])]))) = [True]"
  using events_alternate [of
      "[Loaded (JObj [(''occupancy'', JBool True)]),
        Loaded (JObj [(''occupancy'', JBool True), (''battery'', JInt 100)]),
        Loaded (JObj [(''occupancy'', JBool False)]),
        Loaded (JObj [(''occupancy'', JBool False)]),
        Loaded (JObj [(''occupancy'', JBool True)])]"
      "[True, True, False, False, True]"]
    events_alternate [of "[Loaded (JObj [(''occupancy'', JBool True)])]" "[True]"]
  by (simp del: run.simps)

subsection \<open>Backoff\<close>

lemma delay_base:
  "0 \<le> RECONNECT_ATTEMPTS st \<Longrightarrow>
   snd (get_reconnect_delay st j) = min 60 (2 ^ nat (RECONNECT_ATTEMPTS st)) + j"
  by (simp add: get_reconnect_delay_def Let_def RECONNECT_DELAY_MAX_def RECONNECT_DELAY_MIN_def
      power_int_def)

text \<open>
  C2. Let \<open>a \<ge> 0\<close> be the attempt count, the value of the counter when
  \<open>get_reconnect_delay\<close> is called, and let the jitter lie between 0 and 1. With
  \<open>minDelay = 1\<close> and \<open>maxDelay = 60\<close>, the delay lies in
  \<open>[minDelay * 2\<^sup>a, minDelay * 2\<^sup>a + 1]\<close> as long as \<open>minDelay * 2\<^sup>a\<close> is below
  \<open>maxDelay\<close>, and in \<open>[maxDelay, maxDelay + 1]\<close> from then on. The delay without its
  jitter does not decrease when the attempt count grows.
\<close>

theorem get_reconnect_delay_bounds:
  assumes "0 \<le> RECONNECT_ATTEMPTS st" and "0 \<le> j" and "j \<le> 1"
  shows "RECONNECT_DELAY_MIN = 1 \<and> RECONNECT_DELAY_MAX = 60
    \<and> (let a = nat (RECONNECT_ATTEMPTS st);
            lo = real_of_int RECONNECT_DELAY_MIN * 2 ^ a;
            hi = real_of_int RECONNECT_DELAY_MAX;
            d = snd (get_reconnect_delay st j)
        in (lo < hi \<longrightarrow> lo \<le> d \<and> d \<le> lo + 1) \<and> (hi \<le> lo \<longrightarrow> hi \<le> d \<and> d \<le> hi + 1))
    \<and> (\<forall>st2 j2. RECONNECT_ATTEMPTS st \<le> RECONNECT_ATTEMPTS st2 \<longrightarrow>
          snd (get_reconnect_delay st j) - j \<le> snd (get_reconnect_delay st2 j2) - j2)"
proof -
  have mono: "snd (get_reconnect_delay st j) - j \<le> snd (get_reconnect_delay st2 j2) - j2"
    if le: "RECONNECT_ATTEMPTS st \<le> RECONNECT_ATTEMPTS st2" for st2 j2
  proof -
    from le assms(1) have 2: "0 \<le> RECONNECT_ATTEMPTS st2" by simp
    from le assms(1) have "nat (RECONNECT_ATTEMPTS st) \<le> nat (RECONNECT_ATTEMPTS st2)" by simp
    then have "(2::real) ^ nat (RECONNECT_ATTEMPTS st) \<le> 2 ^ nat (RECONNECT_ATTEMPTS st2)"
      by (simp add: power_increasing)
    then show ?thesis
      by (simp add: delay_base[OF assms(1)] delay_base[OF 2] min_le_iff_disj)
  qed
  from assms mono show ?thesis
    by (simp add: delay_base[OF assms(1)] RECONNECT_DELAY_MAX_def RECONNECT_DELAY_MIN_def Let_def)
qed

theorem get_reconnect_delay_bounds_witness:
  "snd (get_reconnect_delay (initial_state\<lparr>RECONNECT_ATTEMPTS := 3\<rparr>) (1/2)) = 17/2
   \<and> 8 \<le> snd (get_reconnect_delay (initial_state\<lparr>RECONNECT_ATTEMPTS := 3\<rparr>) (1/2))
   \<and> snd (get_reconnect_delay (initial_state\<lparr>RECONNECT_ATTEMPTS := 3\<rparr>) (1/2)) \<le> 9"
  using get_reconnect_delay_bounds [of "initial_state\<lparr>RECONNECT_ATTEMPTS := 3\<rparr>" "1/2"]
  by (simp add: initial_state_def get_reconnect_delay_def RECONNECT_DELAY_MAX_def
      RECONNECT_DELAY_MIN_def)

text \<open>
  C3, as the code has it. A call of \<open>get_reconnect_delay\<close> is determined by the retry
  counter and the value drawn from the random source. It has one side effect: it
  increments the retry counter by one. Every other module variable is left as it was.
\<close>

theorem get_reconnect_delay_effect:
  "fst (get_reconnect_delay st j) = st\<lparr>RECONNECT_ATTEMPTS := RECONNECT_ATTEMPTS st + 1\<rparr>
   \<and> (\<forall>st2. RECONNECT_ATTEMPTS st2 = RECONNECT_ATTEMPTS st \<longrightarrow>
         snd (get_reconnect_delay st2 j) = snd (get_reconnect_delay st j))"
  by (simp add: get_reconnect_delay_def Let_def)

theorem get_reconnect_delay_effect_witness:
  "fst (get_reconnect_delay initial_state (1/2)) = initial_state\<lparr>RECONNECT_ATTEMPTS := 1\<rparr>
   \<and> snd (get_reconnect_delay (initial_state\<lparr>reconnecting := True\<rparr>) (1/2))
     = snd (get_reconnect_delay initial_state (1/2))"
proof -
  note e = get_reconnect_delay_effect [of initial_state "1/2"]
  have c: "RECONNECT_ATTEMPTS (initial_state\<lparr>reconnecting := True\<rparr>)
             = RECONNECT_ATTEMPTS initial_state"
    by simp
  from e have "fst (get_reconnect_delay initial_state (1/2))
      = initial_state\<lparr>RECONNECT_ATTEMPTS := RECONNECT_ATTEMPTS initial_state + 1\<rparr>"
    by (rule conjunct1)
  then have a: "fst (get_reconnect_delay initial_state (1/2))
      = initial_state\<lparr>RECONNECT_ATTEMPTS := 1\<rparr>"
    by (simp add: initial_state_def)
  from e c have b: "snd (get_reconnect_delay (initial_state\<lparr>reconnecting := True\<rparr>) (1/2))
     = snd (get_reconnect_delay initial_state (1/2))"
    by blast
  from a b show ?thesis by (rule conjI)
qed

text \<open>
  The call is not free of side effects: from the initial state it changes the module
  state, and a second call with the same random value returns another delay.
\<close>

theorem get_reconnect_delay_not_pure:
  "fst (get_reconnect_delay initial_state 0) \<noteq> initial_state
   \<and> snd (get_reconnect_delay initial_state 0) = 1
   \<and> snd (get_reconnect_delay (fst (get_reconnect_delay initial_state 0)) 0) = 2"
  by (simp add: get_reconnect_delay_def Let_def initial_state_def RECONNECT_DELAY_MAX_def
      RECONNECT_DELAY_MIN_def)

subsection \<open>Malformed payloads\<close>

lemma on_message_dropped:
  "dropped msg \<Longrightarrow>
   on_message st msg =
     (st, case msg of
            NotDecodable \<Rightarrow> [Print ErrorProcessing]
          | NotJson \<Rightarrow> [Print ErrorNonJson]
          | Loaded v \<Rightarrow> if occupancy_of v = Absent then [] else [Print ErrorProcessing])"
  by (cases msg) (auto simp: on_message_def split: lookup.splits)

lemma on_message_dropped_events:
  "dropped msg \<Longrightarrow> occupancy_events (snd (on_message st msg)) = []"
  by (cases msg) (auto simp: on_message_dropped)

lemma run_skip_dropped:
  "dropped msg \<Longrightarrow>
   fst (run st (es1 @ Message msg # es2)) = fst (run st (es1 @ es2)) \<and>
   occupancy_events (snd (run st (es1 @ Message msg # es2)))
     = occupancy_events (snd (run st (es1 @ es2)))"
proof (induction es1 arbitrary: st)
  case Nil
  then show ?case
    by (simp add: split_beta on_message_dropped_events) (simp add: on_message_dropped)
next
  case (Cons e es1)
  obtain st' out ctl where s: "step st e = (st', out, ctl)" by (cases "step st e")
  show ?case
  proof (cases ctl)
    case Continue
    with s Cons.IH[OF Cons.prems, of st'] show ?thesis by (simp add: split_beta)
  next
    case Break
    with s show ?thesis by simp
  qed
qed

text \<open>
  C4, as the code has it. A payload for which decoding or parsing raises, or whose
  decoded value yields no \<open>occupancy\<close> field, is not fatal, produces no occupancy event
  and leaves the whole module state unchanged (last known occupancy state,
  \<open>reconnecting\<close> flag, retry counter). It is logged when decoding, parsing or the field
  access raises, and dropped without a log line when the decoded object just has no
  \<open>occupancy\<close> key. Such a payload anywhere in a run, in particular between two equal
  readings, changes nothing in the sequence of occupancy events.
\<close>

theorem dropped_payload_no_effect:
  assumes "dropped msg"
  shows "fst (on_message st msg) = st
    \<and> occupancy_events (snd (on_message st msg)) = []
    \<and> snd (on_message st msg) =
        (case msg of
           NotDecodable \<Rightarrow> [Print ErrorProcessing]
         | NotJson \<Rightarrow> [Print ErrorNonJson]
         | Loaded v \<Rightarrow> if occupancy_of v = Absent then [] else [Print ErrorProcessing])
    \<and> occupancy_events (snd (run st0 (es1 @ Message msg # es2)))
        = occupancy_events (snd (run st0 (es1 @ es2)))"
proof -
  have a: "fst (on_message st msg) = st"
    by (simp add: on_message_dropped[OF assms])
  have b: "occupancy_events (snd (on_message st msg)) = []"
    by (rule on_message_dropped_events[OF assms])
  have c: "snd (on_message st msg) =
        (case msg of
           NotDecodable \<Rightarrow> [Print ErrorProcessing]
         | NotJson \<Rightarrow> [Print ErrorNonJson]
         | Loaded v \<Rightarrow> if occupancy_of v = Absent then [] else [Print ErrorProcessing])"
    by (simp add: on_message_dropped[OF assms])
  from a b c run_skip_dropped[OF assms, of st0 es1 es2] show ?thesis by blast
qed

theorem dropped_payload_no_effect_witness:
  "dropped NotJson
   \<and> on_message initial_state NotJson = (initial_state, [Print ErrorNonJson])
   \<and> occupancy_events (snd (run initial_state
        [Message (Loaded (JObj [(''occupancy'', JBool True)])), Message NotJson,
         Message (Loaded (JObj [(''occupancy'', JBool True)]))])) = [True]"
  using dropped_payload_no_effect [of NotJson initial_state initial_state
      "[Message (Loaded (JObj [(''occupancy'', JBool True)]))]"
      "[Message (Loaded (JObj [(''occupancy'', JBool True)]))]"]
  by (simp add: on_message_def py_ne_def initial_state_def)

text \<open>
  A payload whose \<open>occupancy\<close> field is a string is malformed, and \<open>on_message\<close> accepts
  it: it produces an event and becomes the last known state, and between two readings
  \<open>true\<close> it yields three events \<open>true\<close> in a row. A payload without the field is
  malformed and leaves no log line.
\<close>

theorem non_boolean_occupancy_accepted:
  "malformed (Loaded (JObj [(''occupancy'', JStr ''on'')]))
   \<and> on_message initial_state (Loaded (JObj [(''occupancy'', JStr ''on'')]))
       = (initial_state\<lparr>last_occupancy_state := JStr ''on''\<rparr>, [Print (StateText True)])
   \<and> occupancy_events (snd (run initial_state
        [Message (Loaded (JObj [(''occupancy'', JBool True)])),
         Message (Loaded (JObj [(''occupancy'', JStr ''on'')])),
         Message (Loaded (JObj [(''occupancy'', JBool True)]))])) = [True, True, True]
   \<and> malformed (Loaded (JObj [(''battery'', JInt 100)]))
   \<and> snd (on_message initial_state (Loaded (JObj [(''battery'', JInt 100)]))) = []"
  by (simp add: malformed_def on_message_def py_ne_def initial_state_def)

subsection \<open>Staleness\<close>

text \<open>
  C5. \<open>isStale\<close> is true exactly when \<open>now - lastActivityAt > maxInactive\<close>. With
  \<open>lastActivityAt = T\<close> it is true at \<open>now = T + maxInactive + 1\<close> and false at
  \<open>now = T + maxInactive\<close>; \<open>MAX_INACTIVE_TIME\<close>, the default of \<open>maxInactive\<close>, is 60
  seconds.
\<close>

theorem isStale_boundary:
  "(isStale T now maxInactive \<longleftrightarrow> now - T > maxInactive)
   \<and> isStale T (T + maxInactive + 1) maxInactive
   \<and> \<not> isStale T (T + maxInactive) maxInactive
   \<and> MAX_INACTIVE_TIME = 60
   \<and> isStale T (T + 61) (of_int MAX_INACTIVE_TIME)
   \<and> \<not> isStale T (T + 60) (of_int MAX_INACTIVE_TIME)"
  by (simp add: isStale_def MAX_INACTIVE_TIME_def)

subsection \<open>The retry counter\<close>

lemma counter_inv_initial: "counter_inv initial_state"
  by (simp add: counter_inv_def initial_state_def)

lemma on_message_frame:
  "RECONNECT_ATTEMPTS (fst (on_message st msg)) = RECONNECT_ATTEMPTS st"
  "reconnecting (fst (on_message st msg)) = reconnecting st"
  by (auto simp: on_message_def split: payload.splits lookup.splits)

lemma main_loop_body_state:
  "fst (main_loop_body st inp) = st \<or>
   reconnecting st \<and>
   fst (main_loop_body st inp) = st\<lparr>RECONNECT_ATTEMPTS := RECONNECT_ATTEMPTS st + 1\<rparr>"
  by (auto simp: main_loop_body_def get_reconnect_delay_def Let_def split_beta)

lemma counter_inv_step: "counter_inv st \<Longrightarrow> counter_inv (fst (step st e))"
proof (cases e)
  case (LoopPass inp)
  assume "counter_inv st"
  with main_loop_body_state[of st inp] LoopPass show ?thesis
    by (auto simp: counter_inv_def)
qed (auto simp: counter_inv_def on_connect_def on_disconnect_def on_message_frame split_beta)

lemma counter_inv_run: "counter_inv st \<Longrightarrow> counter_inv (fst (run st es))"
proof (induction es arbitrary: st)
  case Nil
  then show ?case by simp
next
  case (Cons e es)
  obtain st' out ctl where s: "step st e = (st', out, ctl)" by (cases "step st e")
  with counter_inv_step[OF Cons.prems, of e] have i: "counter_inv st'" by simp
  show ?case
  proof (cases ctl)
    case Continue
    with s Cons.IH[OF i] show ?thesis by (simp add: split_beta)
  next
    case Break
    with s i show ?thesis by simp
  qed
qed

text \<open>
  C6. In every state that a run reaches from the initial state the retry counter is not
  negative, and after a successful connection (\<open>on_connect\<close> with code 0) in such a state
  the counter is exactly 0. Every pass through the loop body that attempts a
  reconnection, whether the attempt then fails or not, has incremented the counter by
  one.
\<close>

theorem retry_counter:
  "0 \<le> RECONNECT_ATTEMPTS (fst (run initial_state es))
   \<and> RECONNECT_ATTEMPTS (fst (on_connect (fst (run initial_state es)) 0)) = 0
   \<and> (Reconnect \<in> set (fst (snd (main_loop_body st inp))) \<longrightarrow>
        RECONNECT_ATTEMPTS (fst (main_loop_body st inp)) = RECONNECT_ATTEMPTS st + 1)"
proof -
  have "counter_inv (fst (run initial_state es))"
    by (rule counter_inv_run[OF counter_inv_initial])
  then have a: "0 \<le> RECONNECT_ATTEMPTS (fst (run initial_state es))"
    and b: "RECONNECT_ATTEMPTS (fst (on_connect (fst (run initial_state es)) 0)) = 0"
    by (auto simp: counter_inv_def on_connect_def)
  have c: "RECONNECT_ATTEMPTS (fst (main_loop_body st inp)) = RECONNECT_ATTEMPTS st + 1"
    if "Reconnect \<in> set (fst (snd (main_loop_body st inp)))"
    using that
    by (auto simp: main_loop_body_def idle_sleep_def get_reconnect_delay_def Let_def split_beta
        split: if_splits)
  from a b c show ?thesis by blast
qed

text \<open>
  After an unexpected disconnection, two passes that each attempt a reconnection which
  fails leave the counter at 2, and the successful connection that follows resets it.
\<close>

theorem retry_counter_witness:
  "Reconnect \<in> set (fst (snd (main_loop_body (initial_state\<lparr>reconnecting := True\<rparr>)
        \<lparr>is_connected = False, jitter = 1/4, reconnect_raises = True,
          interrupt = NoInterrupt\<rparr>)))
   \<and> Print ReconnectionFailed \<in> set (fst (snd (main_loop_body
        (initial_state\<lparr>reconnecting := True\<rparr>)
        \<lparr>is_connected = False, jitter = 1/4, reconnect_raises = True,
          interrupt = NoInterrupt\<rparr>)))
   \<and> RECONNECT_ATTEMPTS (fst (main_loop_body (initial_state\<lparr>reconnecting := True\<rparr>)
        \<lparr>is_connected = False, jitter = 1/4, reconnect_raises = True,
          interrupt = NoInterrupt\<rparr>)) = 1
   \<and> RECONNECT_ATTEMPTS (fst (run initial_state
        [Disconnect 7,
         LoopPass \<lparr>is_connected = False, jitter = 1/4, reconnect_raises = True,
                   interrupt = NoInterrupt\<rparr>,
         LoopPass \<lparr>is_connected = False, jitter = 1/4, reconnect_raises = True,
                   interrupt = NoInterrupt\<rparr>])) = 2
   \<and> RECONNECT_ATTEMPTS (fst (on_connect (fst (run initial_state
        [Disconnect 7,
         LoopPass \<lparr>is_connected = False, jitter = 1/4, reconnect_raises = True,
                   interrupt = NoInterrupt\<rparr>,
         LoopPass \<lparr>is_connected = False, jitter = 1/4, reconnect_raises = True,
                   interrupt = NoInterrupt\<rparr>])) 0)) = 0"
proof -
  let ?inp = "\<lparr>is_connected = False, jitter = 1/4, reconnect_raises = True,
               interrupt = NoInterrupt\<rparr>"
  let ?st = "initial_state\<lparr>reconnecting := True\<rparr>"
  let ?es = "[Disconnect 7, LoopPass ?inp, LoopPass ?inp]"
  note t = retry_counter [of ?es ?st ?inp]
  have body: "main_loop_body ?st ?inp =
      (?st\<lparr>RECONNECT_ATTEMPTS := 1\<rparr>,
       [Print (AttemptingReconnect (5/4) 1), Sleep (5/4), Reconnect, Print ReconnectionFailed,
        Sleep 1], Continue)"
    by (simp add: main_loop_body_def idle_sleep_def get_reconnect_delay_def Let_def
        initial_state_def MAX_RECONNECT_ATTEMPTS_def RECONNECT_DELAY_MAX_def
        RECONNECT_DELAY_MIN_def)
  then have p: "Reconnect \<in> set (fst (snd (main_loop_body ?st ?inp)))"
    and q: "Print ReconnectionFailed \<in> set (fst (snd (main_loop_body ?st ?inp)))"
    by simp_all
  from t p have one: "RECONNECT_ATTEMPTS (fst (main_loop_body ?st ?inp)) = RECONNECT_ATTEMPTS ?st + 1"
    by blast
  then have one': "RECONNECT_ATTEMPTS (fst (main_loop_body ?st ?inp)) = 1"
    by (simp add: initial_state_def)
  have two: "RECONNECT_ATTEMPTS (fst (run initial_state ?es)) = 2"
    by (simp add: on_disconnect_def main_loop_body_def idle_sleep_def get_reconnect_delay_def
        Let_def initial_state_def MAX_RECONNECT_ATTEMPTS_def)
  from t have zero: "RECONNECT_ATTEMPTS (fst (on_connect (fst (run initial_state ?es)) 0)) = 0"
    by blast
  from p q one' two zero show ?thesis by blast
qed

subsection \<open>Handshake failure\<close>

text \<open>
  C7, as the code has it. A handshake failure (\<open>on_connect\<close> with a code other than 0)
  is logged, is not fatal and changes no module variable: on its own it neither raises
  the \<open>reconnecting\<close> flag nor increments the retry counter. The flag is raised by an
  unexpected disconnection (\<open>on_disconnect\<close> with a code other than 0). The next pass
  through the loop body that then finds the client not connected increments the retry
  counter, computes a delay with \<open>get_reconnect_delay\<close>, sleeps for that delay, calls
  \<open>client.reconnect()\<close> and stays in the loop.
\<close>

theorem handshake_failure_then_disconnect:
  assumes "rc \<noteq> 0" and "\<not> is_connected inp" and "interrupt inp = NoInterrupt"
  shows "on_connect st rc = (st, [Print (FailedToConnect rc)])
    \<and> fst (on_disconnect st rc) = st\<lparr>reconnecting := True\<rparr>
    \<and> (let st1 = fst (on_disconnect st rc);
            (st2, delay) = get_reconnect_delay st1 (jitter inp);
            (st3, out, ctl) = main_loop_body st1 inp
        in st3 = st2 \<and> RECONNECT_ATTEMPTS st3 = RECONNECT_ATTEMPTS st + 1
           \<and> take 3 out = [Print (AttemptingReconnect delay (RECONNECT_ATTEMPTS st3)),
                            Sleep delay, Reconnect]
           \<and> ctl = Continue)"
  using assms
  by (simp add: on_connect_def on_disconnect_def main_loop_body_def idle_sleep_def
      MAX_RECONNECT_ATTEMPTS_def get_reconnect_delay_def Let_def split_beta)

theorem handshake_failure_then_disconnect_witness:
  "on_connect initial_state 5 = (initial_state, [Print (FailedToConnect 5)])
   \<and> run initial_state
       [Connect 5, Disconnect 5,
        LoopPass \<lparr>is_connected = False, jitter = 1/4, reconnect_raises = False,
                  interrupt = NoInterrupt\<rparr>]
     = (initial_state\<lparr>reconnecting := True, RECONNECT_ATTEMPTS := 1\<rparr>,
        [Print (FailedToConnect 5), Print (UnexpectedDisconnection 5),
         Print (AttemptingReconnect (5/4) 1), Sleep (5/4), Reconnect, Sleep 1])"
  using handshake_failure_then_disconnect [of 5
      "\<lparr>is_connected = False, jitter = 1/4, reconnect_raises = False,
        interrupt = NoInterrupt\<rparr>" initial_state]
  by (simp add: on_connect_def on_disconnect_def main_loop_body_def idle_sleep_def
      MAX_RECONNECT_ATTEMPTS_def get_reconnect_delay_def Let_def initial_state_def
      RECONNECT_DELAY_MAX_def RECONNECT_DELAY_MIN_def)

text \<open>
  A handshake failure with nothing after it: the next pass of the loop finds the client
  not connected and only sleeps. The retry counter stays 0, no delay is computed and no
  reconnection is attempted.
\<close>

theorem handshake_failure_alone:
  "run initial_state
     [Connect 5, LoopPass \<lparr>is_connected = False, jitter = 0, reconnect_raises = False,
                           interrupt = NoInterrupt\<rparr>]
   = (initial_state, [Print (FailedToConnect 5), Sleep 1])"
  by (simp add: on_connect_def main_loop_body_def idle_sleep_def initial_state_def)

subsection \<open>Heartbeat\<close>

lemma no_publish_step: "Publish t \<notin> set (fst (snd (step st e)))"
  by (cases e)
     (auto simp: on_connect_def on_disconnect_def on_message_def main_loop_body_def
        idle_sleep_def Let_def split_beta split: payload.splits lookup.splits if_splits)

lemma no_publish_run: "Publish t \<notin> set (snd (run st es))"
proof (induction es arbitrary: st)
  case Nil
  show ?case by simp
next
  case (Cons e es)
  obtain st' out ctl where s: "step st e = (st', out, ctl)" by (cases "step st e")
  with no_publish_step[of t st e] have "Publish t \<notin> set out" by simp
  with s Cons.IH[of st'] show ?case by (cases ctl) (auto simp: split_beta)
qed

text \<open>
  C8. The heartbeat interval is 15 seconds and shorter than the keepalive interval. The
  program connects and then passes through the loop body sixteen times while connected,
  sleeping one second each time: nothing is published to the heartbeat topic. (By
  \<open>no_publish_run\<close> no run of the program publishes anything.)
\<close>

theorem no_heartbeat:
  "HEARTBEAT_INTERVAL = 15 \<and> HEARTBEAT_INTERVAL < KEEPALIVE_INTERVAL
   \<and> snd (run initial_state
       (Connect 0 # replicate 16 (LoopPass \<lparr>is_connected = True, jitter = 0,
           reconnect_raises = False, interrupt = NoInterrupt\<rparr>)))
     = [Print ConnectedTo, Subscribe MQTT_TOPIC, Print SubscribedTo, Print Monitoring]
       @ replicate 16 (Sleep 1)
   \<and> Publish MQTT_HEARTBEAT_TOPIC \<notin> set (snd (run initial_state
       (Connect 0 # replicate 16 (LoopPass \<lparr>is_connected = True, jitter = 0,
           reconnect_raises = False, interrupt = NoInterrupt\<rparr>))))"
  by (simp add: HEARTBEAT_INTERVAL_def KEEPALIVE_INTERVAL_def on_connect_def main_loop_body_def
      idle_sleep_def initial_state_def eval_nat_numeral)

section \<open>Properties of the reporting queries\<close>

subsection \<open>Fixed-width decimal strings are ordered like numbers\<close>

lemma digit_char_less: "a < 10 \<Longrightarrow> b < 10 \<Longrightarrow> digit_char a < digit_char b \<longleftrightarrow> a < b"
  by (simp add: digit_char_def less_char_def)

lemma digit_char_eq: "a < 10 \<Longrightarrow> b < 10 \<Longrightarrow> digit_char a = digit_char b \<longleftrightarrow> a = b"
  by (simp add: digit_char_def)

lemma lex_base10:
  fixes q r q' r' :: nat
  assumes "r < 10" and "r' < 10"
  shows "10 * q + r < 10 * q' + r' \<longleftrightarrow> q < q' \<or> (q = q' \<and> r < r')"
  using assms by auto

lemma eq_base10:
  fixes q r q' r' :: nat
  assumes "r < 10" and "r' < 10"
  shows "10 * q + r = 10 * q' + r' \<longleftrightarrow> q = q' \<and> r = r'"
proof -
  have "10 * q + r = 10 * q' + r' \<longleftrightarrow>
        \<not> 10 * q + r < 10 * q' + r' \<and> \<not> 10 * q' + r' < 10 * q + r"
    by (simp only: nat_neq_iff[symmetric] de_Morgan_disj[symmetric]) simp
  also have "\<dots> \<longleftrightarrow> q = q' \<and> r = r'"
    unfolding lex_base10[OF assms] lex_base10[OF assms(2) assms(1)] by auto
  finally show ?thesis .
qed

lemma two_digits_less:
  fixes a b :: nat
  shows "a < b \<longleftrightarrow> a div 10 < b div 10 \<or> (a div 10 = b div 10 \<and> a mod 10 < b mod 10)"
  using lex_base10[of "a mod 10" "b mod 10" "a div 10" "b div 10"]
  by (simp only: mult_div_mod_eq)

lemma two_digits_eq:
  fixes a b :: nat
  shows "a = b \<longleftrightarrow> a div 10 = b div 10 \<and> a mod 10 = b mod 10"
  using eq_base10[of "a mod 10" "b mod 10" "a div 10" "b div 10"]
  by (simp only: mult_div_mod_eq)

lemma digits_lex:
  fixes a b :: nat
  shows "(a div 10 < b div 10 \<or> (a div 10 = b div 10 \<and>
            (a mod 10 < b mod 10 \<or> (a mod 10 = b mod 10 \<and> P))))
     \<longleftrightarrow> a < b \<or> (a = b \<and> P)"
  using two_digits_less[of a b] two_digits_eq[of a b] by blast

lemma pad2_cmp:
  assumes "a < 100" and "b < 100"
  shows "pad2 a @ r < pad2 b @ s \<longleftrightarrow> a < b \<or> (a = b \<and> r < s)"
proof -
  from assms have "a div 10 < 10" "b div 10 < 10" by simp_all
  with assms have "pad2 a @ r < pad2 b @ s \<longleftrightarrow>
      (a div 10 < b div 10 \<or> (a div 10 = b div 10 \<and>
            (a mod 10 < b mod 10 \<or> (a mod 10 = b mod 10 \<and> r < s))))"
    by (simp add: pad2_def digit_char_less digit_char_eq)
  then show ?thesis by (simp only: digits_lex)
qed

lemma pad4_digits:
  assumes "a < 10000"
  shows "pad4 a = [digit_char (a div 10 div 10 div 10), digit_char (a div 10 div 10 mod 10),
                   digit_char (a div 10 mod 10), digit_char (a mod 10)]"
proof -
  have "a div 10 div 10 div 10 = a div 1000" "a div 10 div 10 = a div 100"
    by (simp_all add: div_mult2_eq[symmetric])
  moreover from assms have "a div 1000 mod 10 = a div 1000" by simp
  ultimately show ?thesis by (simp add: pad4_def)
qed

lemma pad4_cmp:
  assumes "a < 10000" and "b < 10000"
  shows "pad4 a @ r < pad4 b @ s \<longleftrightarrow> a < b \<or> (a = b \<and> r < s)"
proof -
  from assms have "a div 10 div 10 div 10 < 10" "b div 10 div 10 div 10 < 10"
    by (simp_all add: div_mult2_eq[symmetric])
  then have "pad4 a @ r < pad4 b @ s \<longleftrightarrow>
      (a div 10 div 10 div 10 < b div 10 div 10 div 10 \<or>
        (a div 10 div 10 div 10 = b div 10 div 10 div 10 \<and>
          (a div 10 div 10 mod 10 < b div 10 div 10 mod 10 \<or>
            (a div 10 div 10 mod 10 = b div 10 div 10 mod 10 \<and>
              (a div 10 mod 10 < b div 10 mod 10 \<or>
                (a div 10 mod 10 = b div 10 mod 10 \<and>
                  (a mod 10 < b mod 10 \<or> (a mod 10 = b mod 10 \<and> r < s))))))))"
    by (simp add: pad4_digits[OF assms(1)] pad4_digits[OF assms(2)] digit_char_less digit_char_eq)
  then show ?thesis by (simp only: digits_lex)
qed

subsection \<open>Formatted dates are ordered like dates\<close>

lemma days_in_month_le: "days_in_month y m \<le> 31"
  by (simp add: days_in_month_def)

lemma strftime_cmp:
  assumes "valid_date A" and "valid_date B"
  shows "strftime A @ r < strftime B @ s \<longleftrightarrow> date_less A B \<or> (A = B \<and> r < s)"
proof -
  obtain y m d where A: "A = (y, m, d)" by (cases A)
  obtain y' m' d' where B: "B = (y', m', d')" by (cases B)
  from assms A B days_in_month_le[of y m] days_in_month_le[of y' m']
  have b: "y < 10000" "y' < 10000" "m < 100" "m' < 100" "d < 100" "d' < 100"
    by simp_all
  have "strftime A @ r < strftime B @ s \<longleftrightarrow>
        pad4 y @ (CHR ''-'' # pad2 m @ (CHR ''-'' # pad2 d @ r))
        < pad4 y' @ (CHR ''-'' # pad2 m' @ (CHR ''-'' # pad2 d' @ s))"
    by (simp add: A B)
  also have "\<dots> \<longleftrightarrow> date_less A B \<or> (A = B \<and> r < s)"
    unfolding pad4_cmp[OF b(1,2)] Cons_less_Cons pad2_cmp[OF b(3,4)] pad2_cmp[OF b(5,6)]
    by (auto simp: A B)
  finally show ?thesis .
qed

subsection \<open>The window of one day\<close>

text \<open>
  No valid date lies strictly between a date and the day after it, so a timestamp that
  starts with a formatted valid date falls into the window of the query exactly when
  that date is the day asked for.
\<close>

lemma next_day_valid: "valid_date d \<Longrightarrow> next_day d = Some nd \<Longrightarrow> valid_date nd"
  by (cases d) (auto simp: days_in_month_def split: if_splits)

lemma between_days:
  assumes "valid_date d" and "next_day d = Some nd" and "valid_date D"
  shows "\<not> date_less D d \<and> date_less D nd \<longleftrightarrow> D = d"
proof -
  obtain y m dd where d: "d = (y, m, dd)" by (cases d)
  obtain Y M Dd where D: "D = (Y, M, Dd)" by (cases D)
  from assms(1) d have v: "1 \<le> dd" "dd \<le> days_in_month y m" "1 \<le> m" "m \<le> 12" by simp_all
  from assms(3) D have V: "1 \<le> Dd" "Dd \<le> days_in_month Y M" "1 \<le> M" "M \<le> 12" by simp_all
  consider (day) "dd < days_in_month y m" "nd = (y, m, dd + 1)"
    | (month) "dd = days_in_month y m" "m < 12" "nd = (y, m + 1, 1)"
    | (year) "dd = days_in_month y m" "m = 12" "nd = (y + 1, 1, 1)"
    using assms(2) v d by (auto split: if_splits)
  then show ?thesis
  proof cases
    case day
    with v V show ?thesis by (auto simp: d D)
  next
    case month
    with v V show ?thesis by (auto simp: d D less_Suc_eq)
  next
    case year
    with v V show ?thesis by (auto simp: d D less_Suc_eq)
  qed
qed

lemma in_window:
  assumes "valid_date d" and "next_day d = Some nd" and "valid_date D"
  shows "strftime d \<le> strftime D @ rest \<and> strftime D @ rest < strftime nd \<longleftrightarrow> D = d"
proof -
  have nd: "valid_date nd" by (rule next_day_valid[OF assms(1,2)])
  have "strftime d \<le> strftime D @ rest \<longleftrightarrow> \<not> strftime D @ rest < strftime d @ []"
    by (simp add: not_less)
  also have "\<dots> \<longleftrightarrow> \<not> date_less D d"
    unfolding strftime_cmp[OF assms(3) assms(1)] by simp
  finally have lo: "strftime d \<le> strftime D @ rest \<longleftrightarrow> \<not> date_less D d" .
  have "strftime D @ rest < strftime nd \<longleftrightarrow> strftime D @ rest < strftime nd @ []"
    by simp
  also have "\<dots> \<longleftrightarrow> date_less D nd"
    unfolding strftime_cmp[OF assms(3) nd] by simp
  finally have hi: "strftime D @ rest < strftime nd \<longleftrightarrow> date_less D nd" .
  show ?thesis unfolding lo hi by (rule between_days[OF assms])
qed

lemma strptime_valid: "strptime s = Some d \<Longrightarrow> valid_date d"
  by (induction s rule: strptime.induct)
     (auto simp: Let_def split: if_splits option.splits prod.splits)

lemma starts_with_date:
  assumes "valid_date d" and "next_day d = Some nd"
    and "valid_date D" and "prefix (strftime D) ts"
  shows "strftime d \<le> ts \<and> ts < strftime nd \<longleftrightarrow> prefix (strftime d) ts"
proof -
  from assms(4) obtain rest where ts: "ts = strftime D @ rest" by (auto simp: prefix_def)
  have w: "strftime d \<le> ts \<and> ts < strftime nd \<longleftrightarrow> D = d"
    unfolding ts by (rule in_window[OF assms(1-3)])
  have "D = d" if "prefix (strftime d) ts"
  proof -
    from that obtain rest' where "ts = strftime d @ rest'" by (auto simp: prefix_def)
    with in_window[OF assms(1,2,1), of rest'] have "strftime d \<le> ts \<and> ts < strftime nd"
      by simp
    with w show ?thesis by simp
  qed
  with w assms(4) show ?thesis by auto
qed

lemma select_between_day:
  assumes "valid_date d" and "next_day d = Some nd"
    and "\<forall>r\<in>set rows. \<exists>D. valid_date D \<and> prefix (strftime D) (timestamp r)"
  shows "select_between rows (strftime d) (strftime nd)
       = sort_key timestamp (filter (\<lambda>r. prefix (strftime d) (timestamp r)) rows)"
proof -
  have "filter (\<lambda>r. strftime d \<le> timestamp r \<and> timestamp r < strftime nd) rows
           = filter (\<lambda>r. prefix (strftime d) (timestamp r)) rows"
  proof (rule filter_cong)
    fix r assume "r \<in> set rows"
    with assms(3) obtain D where "valid_date D" and "prefix (strftime D) (timestamp r)"
      by blast
    then show "(strftime d \<le> timestamp r \<and> timestamp r < strftime nd)
        = prefix (strftime d) (timestamp r)"
      by (rule starts_with_date[OF assms(1,2)])
  qed simp
  then show ?thesis by (simp add: select_between_def)
qed

lemma get_events_by_date_window:
  assumes "db_exists db" and "\<not> connect_raises db" and "\<not> query_raises db"
    and "strptime date_str = Some d" and "next_day d \<noteq> None"
    and "\<forall>r\<in>set (table_rows db). \<exists>D. valid_date D \<and> prefix (strftime D) (timestamp r)"
  shows "snd (get_events_by_date fromisoformat db date_str)
       = Inr (map (make_event fromisoformat)
           (sort_key timestamp
              (filter (\<lambda>r. prefix (strftime d) (timestamp r)) (table_rows db))))"
proof -
  from assms(5) obtain nd where nd: "next_day d = Some nd" by auto
  have v: "valid_date d" by (rule strptime_valid[OF assms(4)])
  from assms(1-4) nd show ?thesis
    by (simp add: get_events_by_date_def check_database_exists_def get_connection_def Let_def
        select_between_day[OF v nd assms(6)])
qed

lemma get_events_by_date_sorted:
  "snd (get_events_by_date fromisoformat db date_str) = Inr evs \<Longrightarrow>
   sorted (map timestamp evs)"
  by (auto simp: get_events_by_date_def check_database_exists_def get_connection_def
      select_between_def make_event_def Let_def comp_def
      split: prod.splits option.splits if_splits sum.splits)

text \<open>
  The events of 5 March 2024 among three rows, in ascending order of timestamp; the row
  stamped at midnight of the next day is left out.
\<close>

lemma get_events_by_date_example:
  "get_events_by_date (\<lambda>ts. None)
        \<lparr>db_exists = True, connect_raises = False, query_raises = False,
          table_rows = [\<lparr>event_id = 1, timestamp = ''2024-03-05T10:00:00'', occupancy = 1\<rparr>,
                        \<lparr>event_id = 2, timestamp = ''2024-03-06T00:00:00'', occupancy = 0\<rparr>,
                        \<lparr>event_id = 3, timestamp = ''2024-03-05T00:00:00'', occupancy = 0\<rparr>]\<rparr>
        ''2024-03-05''
      = ([DbConnect, DbSelect ''2024-03-05'' ''2024-03-06'', DbClose],
         Inr [\<lparr>event_id = 3, timestamp = ''2024-03-05T00:00:00'', occupancy = 0,
                status = ''Abwesend'', formatted_time = ''2024-03-05T00:00:00''\<rparr>,
              \<lparr>event_id = 1, timestamp = ''2024-03-05T10:00:00'', occupancy = 1,
                status = ''Anwesend'', formatted_time = ''2024-03-05T10:00:00''\<rparr>])"
  by code_simp

text \<open>
  C9. The date string \<open>9999-12-31\<close> is well formed and parses. For it the query does not
  return the events of that day: adding one day overflows and the function ends with
  \<open>OverflowError\<close>, which its \<open>except ValueError\<close> does not catch, before the database
  is opened. (For every other date that parses, \<open>get_events_by_date_window\<close> and
  \<open>get_events_by_date_sorted\<close> show that the query returns the rows of that day in
  ascending order of timestamp.)
\<close>

theorem last_day_overflows:
  "strptime ''9999-12-31'' = Some (9999, 12, 31)
   \<and> get_events_by_date (\<lambda>ts. None)
        \<lparr>db_exists = True, connect_raises = False, query_raises = False,
          table_rows = [\<lparr>event_id = 1, timestamp = ''9999-12-31T10:00:00'', occupancy = 1\<rparr>]\<rparr>
        ''9999-12-31''
      = ([], Inl OverflowError)"
  by (simp add: get_events_by_date_def check_database_exists_def is_digit_def digit_val_def
      days_in_month_def is_leap_def)

text \<open>
  C10. For every input string that \<open>strptime\<close> does not parse as a date, the query
  returns the empty list and raises nothing. Its only action is to print one error
  message (the one about the date format or, when the database file does not exist, the
  one about the missing database): it opens no connection and runs no query.
\<close>

theorem invalid_date_returns_empty:
  assumes "strptime date_str = None"
  shows "get_events_by_date fromisoformat db date_str
       = ([DbPrint (if db_exists db then InvalidDateFormat else DatabaseMissing)], Inr [])"
  using assms by (simp add: get_events_by_date_def check_database_exists_def)

theorem invalid_date_returns_empty_witness:
  "strptime ''2024-02-30'' = None
   \<and> get_events_by_date (\<lambda>ts. None)
        \<lparr>db_exists = True, connect_raises = False, query_raises = False,
          table_rows = [\<lparr>event_id = 1, timestamp = ''2024-02-29T10:00:00'', occupancy = 1\<rparr>]\<rparr>
        ''2024-02-30''
      = ([DbPrint InvalidDateFormat], Inr [])"
proof -
  have p: "strptime ''2024-02-30'' = None"
    by (simp add: is_digit_def digit_val_def days_in_month_def is_leap_def)
  from p invalid_date_returns_empty [OF p] show ?thesis by simp
qed

end
